theory Spec2Isabelle
  imports Main
begin

section \<open>The Go library, as far as \<^verbatim>\<open>log.go\<close> uses it\<close>

text \<open>
  Go strings are byte sequences: \<^typ>\<open>string\<close> (a list of 8-bit characters) with
  \<^const>\<open>length\<close> for \<^verbatim>\<open>len\<close>. The functions of this section are not code of the
  repository; they are the documented behaviour of the packages \<^verbatim>\<open>unicode/utf8\<close>,
  \<^verbatim>\<open>strconv\<close>, \<^verbatim>\<open>strings\<close>, \<^verbatim>\<open>path/filepath\<close> (Unix), \<^verbatim>\<open>time\<close> and \<^verbatim>\<open>fmt\<close> on the
  calls that \<^verbatim>\<open>log.go\<close> makes.
\<close>

subsection \<open>\<^verbatim>\<open>utf8.RuneCountInString\<close>\<close>

definition locb :: nat where
  "locb = 0x80"

definition hicb :: nat where
  "hicb = 0xBF"

text \<open>
  The table \<^verbatim>\<open>first\<close> with \<^verbatim>\<open>acceptRanges\<close>: for a leading byte, the length of the
  encoding it starts and the range its second byte must lie in; \<open>None\<close> for the entries
  \<^verbatim>\<open>as\<close> (ASCII) and \<^verbatim>\<open>xx\<close> (invalid), which both have size 1.
\<close>

definition utf8_first :: "nat \<Rightarrow> (nat \<times> nat \<times> nat) option" where
  "utf8_first c =
     (if c < 0xC2 then None
      else if c < 0xE0 then Some (2, locb, hicb)
      else if c = 0xE0 then Some (3, 0xA0, hicb)
      else if c < 0xED then Some (3, locb, hicb)
      else if c = 0xED then Some (3, locb, 0x9F)
      else if c < 0xF0 then Some (3, locb, hicb)
      else if c = 0xF0 then Some (4, 0x90, hicb)
      else if c < 0xF4 then Some (4, locb, hicb)
      else if c = 0xF4 then Some (4, locb, 0x8F)
      else None)"

text \<open>
  One turn of the loop of \<^verbatim>\<open>RuneCountInString\<close>: the number of bytes the rune starting
  with byte \<open>c\<close> takes, \<open>rest\<close> being the bytes after it. A byte that starts no valid
  encoding, or one whose encoding is cut short, is a rune of one byte.
\<close>

definition rune_size :: "nat \<Rightarrow> nat list \<Rightarrow> nat" where
  "rune_size c rest =
     (if c < 0x80 then 1
      else case utf8_first c of
        None \<Rightarrow> 1
      | Some (sz, lo, hi) \<Rightarrow>
          if 1 + length rest < sz then 1
          else if rest ! 0 < lo \<or> hi < rest ! 0 then 1
          else if sz = 2 then 2
          else if rest ! 1 < locb \<or> hicb < rest ! 1 then 1
          else if sz = 3 then 3
          else if rest ! 2 < locb \<or> hicb < rest ! 2 then 1
          else 4)"

fun count_runes :: "nat list \<Rightarrow> nat" where
  "count_runes [] = 0"
| "count_runes (c # cs) = Suc (count_runes (drop (rune_size c cs - 1) cs))"

definition RuneCountInString :: "string \<Rightarrow> nat" where
  "RuneCountInString s = count_runes (map of_char s)"

subsection \<open>\<^verbatim>\<open>strconv.Itoa\<close>, \<^verbatim>\<open>strings.HasSuffix\<close>, \<^verbatim>\<open>filepath.Base\<close>\<close>

definition digit :: "nat \<Rightarrow> char" where
  "digit d = ''0123456789'' ! d"

fun digits10 :: "nat \<Rightarrow> string" where
  "digits10 n = (if n < 10 then [digit n] else digits10 (n div 10) @ [digit (n mod 10)])"

declare digits10.simps [simp del]

definition Itoa :: "int \<Rightarrow> string" where
  "Itoa i = (if i < 0 then CHR ''-'' # digits10 (nat (- i)) else digits10 (nat i))"

definition HasSuffix :: "string \<Rightarrow> string \<Rightarrow> bool" where
  "HasSuffix s suffix =
     (length suffix \<le> length s \<and> drop (length s - length suffix) s = suffix)"

text \<open>
  \<^verbatim>\<open>filepath.Base\<close> with \<^verbatim>\<open>/\<close> as the only separator and no volume name: the last
  element of the path, trailing slashes removed first; \<^verbatim>\<open>.\<close> for the empty path and
  \<^verbatim>\<open>/\<close> for a path of slashes only.
\<close>

definition IsPathSeparator :: "char \<Rightarrow> bool" where
  "IsPathSeparator c = (c = CHR ''/'')"

definition Base :: "string \<Rightarrow> string" where
  "Base path =
     (if path = [] then ''.''
      else
        let p = rev (dropWhile IsPathSeparator (rev path));
            p = rev (takeWhile (\<lambda>c. \<not> IsPathSeparator c) (rev p))
        in if p = [] then ''/'' else p)"

subsection \<open>\<^verbatim>\<open>time.Time.Format\<close> with the layout \<^verbatim>\<open>2006/01/02 15:04:05 \<close>\<close>

record time_Time =
  Year :: nat
  Month :: nat
  Day :: nat
  Hour :: nat
  Minute :: nat
  Second :: nat

text \<open>\<^verbatim>\<open>appendInt\<close>: the decimal digits, zero-padded on the left to the width.\<close>

definition appendInt :: "nat \<Rightarrow> nat \<Rightarrow> string" where
  "appendInt x width =
     replicate (width - length (digits10 x)) (CHR ''0'') @ digits10 x"

definition Format :: "time_Time \<Rightarrow> string" where
  "Format t =
     appendInt (Year t) 4 @ ''/'' @ appendInt (Month t) 2 @ ''/'' @ appendInt (Day t) 2
     @ '' '' @ appendInt (Hour t) 2 @ '':'' @ appendInt (Minute t) 2 @ '':''
     @ appendInt (Second t) 2 @ '' ''"

subsection \<open>\<^verbatim>\<open>fmt.Sprintf\<close> and \<^verbatim>\<open>fmt.Errorf\<close>\<close>

text \<open>The flags and the width of a verb, which a \<^verbatim>\<open>Format\<close> method reads too.\<close>

record fmtFlags =
  minusFlag :: bool
  wid :: nat
  widPresent :: bool

text \<open>
  An \<^verbatim>\<open>error\<close> is the \<^verbatim>\<open>nil\<close> interface or a value of some type with an \<^verbatim>\<open>Error\<close>
  method. What \<^verbatim>\<open>fmt\<close> writes for it depends on that type:
  \<^item> \<open>errorString m\<close>: a value with no \<^verbatim>\<open>Format\<close> method whose \<^verbatim>\<open>Error\<close> method
    returns \<open>m\<close>;
  \<^item> \<open>formatter g\<close>: a value with a \<^verbatim>\<open>Format\<close> method (a \<^verbatim>\<open>fmt.Formatter\<close>), which
    \<^verbatim>\<open>fmt\<close> asks first; \<open>g\<close> gives, for the flags and the verb, what stands in the
    output for the operand once the method is done (with what \<^verbatim>\<open>fmt\<close> adds when the
    method panics);
  \<^item> \<open>nilPointer\<close>: a nil pointer with no \<^verbatim>\<open>Format\<close> method, whose \<^verbatim>\<open>Error\<close> method
    panics on it;
  \<^item> \<open>panicking t\<close>: any other value with no \<^verbatim>\<open>Format\<close> method whose \<^verbatim>\<open>Error\<close>
    method panics, \<open>t\<close> being the text of the panic value under \<^verbatim>\<open>%v\<close>.
  An operand of a formatting call is an \<^verbatim>\<open>int\<close>, a \<^verbatim>\<open>string\<close>, an \<^verbatim>\<open>error\<close> or a
  value of some other type.
\<close>

datatype error =
  nil
| errorString string
| formatter "fmtFlags \<Rightarrow> char \<Rightarrow> string"
| nilPointer
| panicking string

datatype arg = IntArg int | StringArg string | ErrorArg error | OtherArg nat

text \<open>
  \<^verbatim>\<open>fmt.pad\<close> and \<^verbatim>\<open>fmt.padString\<close>: the width counts runes; padding is with spaces, on
  the right under the flag \<^verbatim>\<open>-\<close>, and a text at least as wide is written as it is.
\<close>

definition padString :: "fmtFlags \<Rightarrow> string \<Rightarrow> string" where
  "padString f s =
     (if \<not> widPresent f \<or> wid f = 0 then s
      else
        let width = wid f - RuneCountInString s
        in if \<not> minusFlag f then replicate width (CHR '' '') @ s
           else s @ replicate width (CHR '' ''))"

text \<open>
  \<^verbatim>\<open>printArg\<close> on the verbs \<^verbatim>\<open>d\<close>, \<^verbatim>\<open>s\<close> and \<^verbatim>\<open>v\<close>: an \<^verbatim>\<open>int\<close> in decimal under
  \<^verbatim>\<open>d\<close> and \<^verbatim>\<open>v\<close>, a string under \<^verbatim>\<open>s\<close> and \<^verbatim>\<open>v\<close>, the nil error as \<^verbatim>\<open><nil>\<close>
  under \<^verbatim>\<open>v\<close>. For any other error \<^verbatim>\<open>handleMethods\<close> decides: a \<^verbatim>\<open>Formatter\<close> writes
  the operand itself, under every verb; otherwise, under \<^verbatim>\<open>s\<close> and \<^verbatim>\<open>v\<close>, the text of
  the \<^verbatim>\<open>Error\<close> method is written as a string is, and when the method panics
  \<^verbatim>\<open>catchPanic\<close> writes \<^verbatim>\<open><nil>\<close> for a nil pointer and the panic otherwise, neither
  of them padded. \<open>None\<close>: a verb and operand this model does not cover.
\<close>

definition printArg :: "fmtFlags \<Rightarrow> char \<Rightarrow> arg \<Rightarrow> string option" where
  "printArg f verb x =
     (case x of
        IntArg n \<Rightarrow>
          if verb = CHR ''d'' \<or> verb = CHR ''v'' then Some (padString f (Itoa n)) else None
      | StringArg s \<Rightarrow>
          if verb = CHR ''s'' \<or> verb = CHR ''v'' then Some (padString f s) else None
      | ErrorArg nil \<Rightarrow>
          if verb = CHR ''v'' then Some (padString f ''<nil>'') else None
      | ErrorArg (errorString m) \<Rightarrow>
          if verb = CHR ''s'' \<or> verb = CHR ''v'' then Some (padString f m) else None
      | ErrorArg (formatter g) \<Rightarrow>
          if verb = CHR ''d'' \<or> verb = CHR ''s'' \<or> verb = CHR ''v'' then Some (g f verb)
          else None
      | ErrorArg nilPointer \<Rightarrow>
          if verb = CHR ''s'' \<or> verb = CHR ''v'' then Some ''<nil>'' else None
      | ErrorArg (panicking t) \<Rightarrow>
          if verb = CHR ''s'' \<or> verb = CHR ''v''
          then Some (''%!'' @ [verb] @ ''(PANIC=Error method: '' @ t @ '')'')
          else None
      | OtherArg _ \<Rightarrow> None)"

text \<open>
  \<^verbatim>\<open>doPrintf\<close> on the formats made of plain text, \<^verbatim>\<open>%%\<close>, and verbs \<^verbatim>\<open>d\<close>, \<^verbatim>\<open>s\<close>,
  \<^verbatim>\<open>v\<close> with an optional flag \<^verbatim>\<open>-\<close> and an optional width of at most 1000000, each verb
  with an operand it accepts and no operand left over. The scanner is in one of four
  places: in plain text, after \<^verbatim>\<open>%\<close>, after \<^verbatim>\<open>%-\<close>, or inside the digits of a width.
  \<open>None\<close>: a format or operand outside this fragment.
\<close>

datatype scan = Text | Percent | Minus | Width bool nat

definition isDigit :: "char \<Rightarrow> bool" where
  "isDigit c = (c \<in> set ''0123456789'')"

definition digitVal :: "char \<Rightarrow> nat" where
  "digitVal c = of_char c - 48"

definition verbArg :: "fmtFlags \<Rightarrow> char \<Rightarrow> arg list \<Rightarrow> (string \<times> arg list) option" where
  "verbArg f verb a =
     (case a of
        [] \<Rightarrow> None
      | x # xs \<Rightarrow> (case printArg f verb x of None \<Rightarrow> None | Some s \<Rightarrow> Some (s, xs)))"

fun doPrintf :: "scan \<Rightarrow> string \<Rightarrow> arg list \<Rightarrow> string option" where
  "doPrintf Text [] a = (if a = [] then Some [] else None)"
| "doPrintf Text (c # cs) a =
     (if c = CHR ''%'' then doPrintf Percent cs a
      else map_option ((#) c) (doPrintf Text cs a))"
| "doPrintf Percent (c # cs) a =
     (if c = CHR ''%'' then map_option ((#) c) (doPrintf Text cs a)
      else if c = CHR ''-'' then doPrintf Minus cs a
      else if isDigit c \<and> c \<noteq> CHR ''0'' then doPrintf (Width False (digitVal c)) cs a
      else case verbArg \<lparr>minusFlag = False, wid = 0, widPresent = False\<rparr> c a of
             None \<Rightarrow> None
           | Some (s, xs) \<Rightarrow> map_option ((@) s) (doPrintf Text cs xs))"
| "doPrintf Minus (c # cs) a =
     (if isDigit c \<and> c \<noteq> CHR ''0'' then doPrintf (Width True (digitVal c)) cs a
      else case verbArg \<lparr>minusFlag = True, wid = 0, widPresent = False\<rparr> c a of
             None \<Rightarrow> None
           | Some (s, xs) \<Rightarrow> map_option ((@) s) (doPrintf Text cs xs))"
| "doPrintf (Width m n) (c # cs) a =
     (if isDigit c then
        (if 1000000 < 10 * n + digitVal c then None
         else doPrintf (Width m (10 * n + digitVal c)) cs a)
      else case verbArg \<lparr>minusFlag = m, wid = n, widPresent = True\<rparr> c a of
             None \<Rightarrow> None
           | Some (s, xs) \<Rightarrow> map_option ((@) s) (doPrintf Text cs xs))"
| "doPrintf _ [] a = None"

section \<open>The logger\<close>

subsection \<open>Levels\<close>

type_synonym Level = int

definition FatalLevel :: Level where
  "FatalLevel = 0"

definition ErrorLevel :: Level where
  "ErrorLevel = 1"

definition InfoLevel :: Level where
  "InfoLevel = 2"

definition DebugLevel :: Level where
  "DebugLevel = 3"

definition levelToLetter :: "Level \<rightharpoonup> string" where
  "levelToLetter =
     [FatalLevel \<mapsto> ''F'', ErrorLevel \<mapsto> ''E'', InfoLevel \<mapsto> ''_'', DebugLevel \<mapsto> ''.'']"

subsection \<open>The logger, its sink and what surrounds a call\<close>

text \<open>
  The sink of a logger is a reference to an \<^verbatim>\<open>io.WriteCloser\<close>, an object the logger
  knows by its two methods only. The store keeps, for every reference, the calls made on
  the object so far, oldest first, each \<^verbatim>\<open>Write\<close> with its bytes and the error the sink
  answered (\<open>nil\<close> on success; of no account when the \<^verbatim>\<open>Write\<close> did not return). The
  logger reads none of these answers.

  The mutex embedded in the logger is locked before the \<^verbatim>\<open>Write\<close> and unlocked after
  it. In a sequential run it is free at every call and free again at every return, so
  it is no part of the state below.
\<close>

type_synonym ref = nat

datatype call = WriteCall string error | CloseCall

record Logger =
  Level :: Level
  Time :: bool
  w :: ref

record world =
  logger :: Logger
  sinks :: "ref \<Rightarrow> call list"

text \<open>
  A call returns to its caller, ends the process with an exit status, panics, or never
  comes back.
\<close>

datatype outcome = Returns | Exits int | Panics | Blocks

text \<open>
  What a call reads from outside the logger: the frames \<^verbatim>\<open>runtime.Caller\<close> reports
  (file and line, \<open>None\<close> when it reports \<^verbatim>\<open>ok = false\<close>), the clock, how the sink's
  \<^verbatim>\<open>Write\<close> ends and the error it answers when it returns, and what \<^verbatim>\<open>fmt.Sprintf\<close>
  and \<^verbatim>\<open>fmt.Errorf\<close> produce on the formats and operands that \<^const>\<open>doPrintf\<close> does not
  cover. A logger made with the nil sink is one whose sink panics at every \<^verbatim>\<open>Write\<close>.
\<close>

record env =
  Caller :: "int \<Rightarrow> (string \<times> nat) option"
  Now :: time_Time
  WriteErr :: "ref \<Rightarrow> call list \<Rightarrow> string \<Rightarrow> error"
  WriteEnds :: "ref \<Rightarrow> call list \<Rightarrow> string \<Rightarrow> outcome"
  SprintfOther :: "string \<Rightarrow> arg list \<Rightarrow> string"
  ErrorfOther :: "string \<Rightarrow> arg list \<Rightarrow> string"

definition Sprintf :: "env \<Rightarrow> string \<Rightarrow> arg list \<Rightarrow> string" where
  "Sprintf e format a =
     (case doPrintf Text format a of Some s \<Rightarrow> s | None \<Rightarrow> SprintfOther e format a)"

text \<open>\<^verbatim>\<open>fmt.Errorf\<close>: a new error that carries the formatted text.\<close>

definition fmt_Errorf :: "env \<Rightarrow> string \<Rightarrow> arg list \<Rightarrow> error" where
  "fmt_Errorf e format a =
     errorString
       (case doPrintf Text format a of Some s \<Rightarrow> s | None \<Rightarrow> ErrorfOther e format a)"

text \<open>\<^verbatim>\<open>l.w.Write([]byte(msg))\<close>, both results dropped.\<close>

definition Write :: "env \<Rightarrow> ref \<Rightarrow> string \<Rightarrow> world \<Rightarrow> world" where
  "Write e r p st =
     st\<lparr>sinks := (sinks st)(r := sinks st r @ [WriteCall p (WriteErr e r (sinks st r) p)])\<rparr>"

definition New :: "ref \<Rightarrow> Logger" where
  "New r = \<lparr>Level = ErrorLevel, Time = True, w = r\<rparr>"

definition Close :: "world \<Rightarrow> world" where
  "Close st = st\<lparr>sinks := (sinks st)(w (logger st) := sinks st (w (logger st)) @ [CloseCall])\<rparr>"

definition Stderr :: ref where
  "Stderr = 2"

definition Default :: Logger where
  "Default = \<lparr>Level = ErrorLevel, Time = True, w = Stderr\<rparr>"

subsection \<open>\<^verbatim>\<open>Logger.log\<close>\<close>

text \<open>
  Lines 82 to 90: the caller's file and line rendered by \<^verbatim>\<open>%s:%-4d\<close> (lines 82 to
  86), cut to its last 18 bytes when it has more (lines 87 to 89), then padded by
  \<^verbatim>\<open>%-18s\<close> (line 90).
\<close>

definition caller_fl :: "env \<Rightarrow> int \<Rightarrow> string" where
  "caller_fl e skip =
     (let (file, line) =
            (case Caller e (2 + skip) of
               Some (f, n) \<Rightarrow> (f, n)
             | None \<Rightarrow> (''unknown'', 0))
      in Sprintf e ''%s:%-4d'' [StringArg (Base file), IntArg (int line)])"

definition last18 :: "string \<Rightarrow> string" where
  "last18 fl = (if 18 < length fl then drop (length fl - 18) fl else fl)"

definition location :: "env \<Rightarrow> int \<Rightarrow> string" where
  "location e skip =
     (let fl = caller_fl e skip;
          fl = last18 fl
      in Sprintf e ''%-18s'' [StringArg fl])"

text \<open>Lines 93 to 96: the letter of the level, or its number.\<close>

definition letter :: "Level \<Rightarrow> string" where
  "letter level = (case levelToLetter level of Some s \<Rightarrow> s | None \<Rightarrow> Itoa level)"

text \<open>Lines 79 to 106: the message that goes to the sink.\<close>

definition message :: "env \<Rightarrow> Logger \<Rightarrow> Level \<Rightarrow> int \<Rightarrow> string \<Rightarrow> arg list \<Rightarrow> string" where
  "message e l level skip format a =
     (let msg = Sprintf e format a;
          msg = location e skip @ '' '' @ msg;
          msg = letter level @ '' '' @ msg;
          msg = (if Time l then Format (Now e) @ msg else msg)
      in if \<not> HasSuffix msg ''\<newline>'' then msg @ ''\<newline>'' else msg)"

definition log :: "env \<Rightarrow> world \<Rightarrow> Level \<Rightarrow> int \<Rightarrow> string \<Rightarrow> arg list \<Rightarrow> world" where
  "log e st level skip format a =
     (if Level (logger st) < level then st
      else Write e (w (logger st)) (message e (logger st) level skip format a) st)"

text \<open>
  How the call of \<open>log\<close> ends: it returns at the gate, and otherwise it ends as the
  \<^verbatim>\<open>Write\<close> of line 109 does, since nothing in \<open>log\<close> recovers a panic.
\<close>

definition log_ends :: "env \<Rightarrow> world \<Rightarrow> Level \<Rightarrow> int \<Rightarrow> string \<Rightarrow> arg list \<Rightarrow> outcome" where
  "log_ends e st level skip format a =
     (if Level (logger st) < level then Returns
      else WriteEnds e (w (logger st)) (sinks st (w (logger st)))
             (message e (logger st) level skip format a))"

subsection \<open>The entry points\<close>

text \<open>
  The package's functions of the same names are these methods on the logger
  \<^verbatim>\<open>Default\<close>. \<open>Debugf\<close>, \<open>Infof\<close>, \<open>Errorf\<close> and \<open>Error\<close> give the world after the
  call, and the error that is returned when the call returns; they end as their call
  of \<open>log\<close> does. \<open>Fatalf\<close> and \<open>Fatal\<close> reach \<^verbatim>\<open>os.Exit(1)\<close> when their call of
  \<open>log\<close> has returned.
\<close>

definition Debugf :: "env \<Rightarrow> world \<Rightarrow> string \<Rightarrow> arg list \<Rightarrow> world" where
  "Debugf e st format a = log e st DebugLevel 1 format a"

definition Infof :: "env \<Rightarrow> world \<Rightarrow> string \<Rightarrow> arg list \<Rightarrow> world" where
  "Infof e st format a = log e st InfoLevel 1 format a"

definition Errorf :: "env \<Rightarrow> world \<Rightarrow> string \<Rightarrow> arg list \<Rightarrow> world \<times> error" where
  "Errorf e st format a =
     (let st = log e st ErrorLevel 1 format a
      in (st, fmt_Errorf e format a))"

definition Error :: "env \<Rightarrow> world \<Rightarrow> error \<Rightarrow> world \<times> error" where
  "Error e st err =
     (let st = log e st ErrorLevel 1 ''Error: %v\<newline>'' [ErrorArg err]
      in (st, err))"

definition os_Exit :: "int \<Rightarrow> world \<Rightarrow> world \<times> outcome" where
  "os_Exit code st = (st, Exits code)"

definition Fatalf :: "env \<Rightarrow> world \<Rightarrow> string \<Rightarrow> arg list \<Rightarrow> world \<times> outcome" where
  "Fatalf e st format a =
     (let ends = log_ends e st FatalLevel 1 format a;
          st = log e st FatalLevel 1 format a
      in if ends = Returns then os_Exit 1 st else (st, ends))"

definition Fatal :: "env \<Rightarrow> world \<Rightarrow> error \<Rightarrow> world \<times> outcome" where
  "Fatal e st err =
     (let ends = log_ends e st FatalLevel 1 ''Error: %v\<newline>'' [ErrorArg err];
          st = log e st FatalLevel 1 ''Error: %v\<newline>'' [ErrorArg err]
      in if ends = Returns then os_Exit 1 st else (st, ends))"

section \<open>Notions the properties are stated with, and sample calls\<close>

text \<open>
  The checks \<^const>\<open>rune_size\<close> makes on the bytes after a leading byte, as one
  condition.
\<close>

definition conts_ok :: "nat \<Rightarrow> nat \<Rightarrow> nat \<Rightarrow> nat list \<Rightarrow> bool" where
  "conts_ok sz lo hi rest =
     (lo \<le> rest ! 0 \<and> rest ! 0 \<le> hi \<and>
      (sz = 2 \<or> (locb \<le> rest ! 1 \<and> rest ! 1 \<le> hicb \<and>
         (sz = 3 \<or> (locb \<le> rest ! 2 \<and> rest ! 2 \<le> hicb)))))"

text \<open>The number of newline bytes a text ends with.\<close>

definition trailing_newlines :: "string \<Rightarrow> nat" where
  "trailing_newlines s = length (takeWhile (\<lambda>c. c = CHR ''\<newline>'') (rev s))"

text \<open>The number a text of decimal digits stands for.\<close>

definition decimal_value :: "string \<Rightarrow> nat" where
  "decimal_value s = foldl (\<lambda>v c. 10 * v + digitVal c) 0 s"

text \<open>
  Between two worlds nothing differs but the history of the logger's sink, and the
  earlier history is the beginning of the later one.
\<close>

definition only_sink_grows :: "world \<Rightarrow> world \<Rightarrow> bool" where
  "only_sink_grows st st' =
     (st' = st\<lparr>sinks := (sinks st)(w (logger st) := sinks st' (w (logger st)))\<rparr>
      \<and> take (length (sinks st (w (logger st)))) (sinks st' (w (logger st)))
          = sinks st (w (logger st)))"

text \<open>
  A sample call: made from line 42 of \<^verbatim>\<open>/home/u/app/main.go\<close> on 2018/03/07 at
  09:05:00, with a sink that accepts every write and returns.
\<close>

definition clock0 :: time_Time where
  "clock0 = \<lparr>Year = 2018, Month = 3, Day = 7, Hour = 9, Minute = 5, Second = 0\<rparr>"

definition env0 :: env where
  "env0 =
     \<lparr>Caller = (\<lambda>k. if k = 3 then Some (''/home/u/app/main.go'', 42) else None),
      Now = clock0,
      WriteErr = (\<lambda>r h p. nil),
      WriteEnds = (\<lambda>r h p. Returns),
      SprintfOther = (\<lambda>format a. []),
      ErrorfOther = (\<lambda>format a. [])\<rparr>"

definition world0 :: world where
  "world0 = \<lparr>logger = Default, sinks = (\<lambda>r. [])\<rparr>"

text \<open>
  The same call from line 1 of a file whose name is six times the two bytes \<^verbatim>\<open>C3 A9\<close>
  (the letter e with an acute accent in UTF-8) and \<^verbatim>\<open>.go\<close>; from line 7 of a file
  with a long name; from line 1 of a file whose name starts with the three bytes
  \<^verbatim>\<open>E2 82 AC\<close> (the euro sign in UTF-8); on a sink whose \<^verbatim>\<open>Write\<close> returns an error;
  and on a sink whose \<^verbatim>\<open>Write\<close> panics, as the nil sink does. Then an error with a
  \<^verbatim>\<open>Format\<close> method that writes \<^verbatim>\<open>FORMATTED\<close> whatever the verb.
\<close>

definition e_acute :: string where
  "e_acute = [CHR 0xC3, CHR 0xA9]"

definition env_accent :: env where
  "env_accent =
     env0\<lparr>Caller := (\<lambda>k. Some (concat (replicate 6 e_acute) @ ''.go'', 1))\<rparr>"

definition env_long :: env where
  "env_long = env0\<lparr>Caller := (\<lambda>k. Some (''/srv/averyverylongfilename.go'', 7))\<rparr>"

definition euro :: string where
  "euro = [CHR 0xE2, CHR 0x82, CHR 0xAC]"

definition env_euro :: env where
  "env_euro = env0\<lparr>Caller := (\<lambda>k. Some (euro @ ''abcdefgh.go'', 1))\<rparr>"



definition err_formatted :: error where
  "err_formatted = formatter (\<lambda>f verb. ''FORMATTED'')"

section \<open>Facts about the library functions\<close>

lemma utf8_first_Some:
  "utf8_first c = Some (sz, lo, hi) \<Longrightarrow> (sz = 2 \<or> sz = 3 \<or> sz = 4) \<and> 0x80 \<le> lo \<and> 0x80 \<le> c"
  by (auto simp: utf8_first_def locb_def split: if_splits)

lemma rune_size_alt:
  assumes "utf8_first c = Some (sz, lo, hi)"
  shows "rune_size c rest =
     (if 1 + length rest < sz then 1 else if conts_ok sz lo hi rest then sz else 1)"
proof -
  from utf8_first_Some[OF assms] have sz: "sz = 2 \<or> sz = 3 \<or> sz = 4" and c: "\<not> c < 0x80"
    by simp_all
  from sz show ?thesis
  proof (elim disjE)
    assume "sz = 2" then show ?thesis using assms c
      by (simp add: rune_size_def conts_ok_def not_less)
  next
    assume "sz = 3" then show ?thesis using assms c
      by (simp add: rune_size_def conts_ok_def not_less)
  next
    assume "sz = 4" then show ?thesis using assms c
      by (simp add: rune_size_def conts_ok_def not_less)
  qed
qed

lemma rune_size_None: "utf8_first c = None \<Longrightarrow> rune_size c rest = 1"
  by (simp add: rune_size_def)

lemma rune_size_le: "rune_size c rest \<le> Suc (length rest)"
proof (cases "utf8_first c")
  case None
  then show ?thesis by (simp add: rune_size_None)
next
  case (Some t)
  obtain sz lo hi where t: "t = (sz, lo, hi)" by (cases t)
  show ?thesis using Some t by (simp add: rune_size_alt)
qed

lemma count_runes_le: "count_runes bs \<le> length bs"
proof (induction bs rule: count_runes.induct)
  case 1 show ?case by simp
next
  case (2 c cs)
  then show ?case by simp
qed

lemma count_runes_ascii: "\<forall>b\<in>set bs. b < 0x80 \<Longrightarrow> count_runes bs = length bs"
  by (induction bs) (auto simp: rune_size_def)

lemma conts_ok_pad:
  assumes "0x80 \<le> lo" "sz = 2 \<or> sz = 3 \<or> sz = 4" "sz \<le> 1 + length cs"
  shows "conts_ok sz lo hi (cs @ replicate n 32) = conts_ok sz lo hi cs"
  using assms by (auto simp: conts_ok_def nth_append)

lemma conts_ok_short:
  assumes "0x80 \<le> lo" "sz = 2 \<or> sz = 3 \<or> sz = 4" "1 + length cs < sz" "sz \<le> 1 + length cs + n"
  shows "\<not> conts_ok sz lo hi (cs @ replicate n 32)"
proof -
  have "length cs < 3" using assms by auto
  then consider "length cs = 0" | "length cs = 1" | "length cs = 2" by linarith
  then show ?thesis
  proof cases
    case 1 then show ?thesis using assms by (cases n) (auto simp: conts_ok_def nth_append)
  next
    case 2 then show ?thesis using assms
      by (cases n) (auto simp: conts_ok_def nth_append locb_def)
  next
    case 3 then show ?thesis using assms
      by (cases n) (auto simp: conts_ok_def nth_append locb_def)
  qed
qed

lemma rune_size_pad:
  "rune_size c (cs @ replicate n 32) = rune_size c cs"
proof (cases "utf8_first c")
  case None
  then show ?thesis by (simp add: rune_size_None)
next
  case (Some t)
  obtain sz lo hi where t: "t = (sz, lo, hi)" by (cases t)
  from utf8_first_Some[of c sz lo hi] Some t
  have sz: "sz = 2 \<or> sz = 3 \<or> sz = 4" and lo: "0x80 \<le> lo" by simp_all
  have f: "utf8_first c = Some (sz, lo, hi)" using Some t by simp
  show ?thesis
  proof (cases "1 + length cs < sz")
    case False
    then have "sz \<le> 1 + length cs" by simp
    from conts_ok_pad[OF lo sz this] False show ?thesis
      by (simp add: rune_size_alt[OF f])
  next
    case True
    show ?thesis
    proof (cases "1 + length cs + n < sz")
      case True
      then show ?thesis using \<open>1 + length cs < sz\<close> by (simp add: rune_size_alt[OF f])
    next
      case False
      then have "sz \<le> 1 + length cs + n" by simp
      from conts_ok_short[OF lo sz True this] True show ?thesis
        by (simp add: rune_size_alt[OF f])
    qed
  qed
qed

lemma count_runes_spaces: "count_runes (replicate n 32) = n"
  by (induction n) (simp_all add: rune_size_def)

lemma count_runes_pad: "count_runes (bs @ replicate n 32) = count_runes bs + n"
proof (induction bs rule: count_runes.induct)
  case 1 show ?case by (simp add: count_runes_spaces)
next
  case (2 c cs)
  have "rune_size c cs - 1 \<le> length cs" using rune_size_le[of c cs] by simp
  then show ?case using 2 by (simp add: rune_size_pad)
qed

lemma RuneCount_le: "RuneCountInString s \<le> length s"
  using count_runes_le[of "map of_char s"] by (simp add: RuneCountInString_def)

lemma RuneCount_ascii:
  "\<forall>c\<in>set s. (of_char c :: nat) < 0x80 \<Longrightarrow> RuneCountInString s = length s"
  using count_runes_ascii[of "map of_char s"] by (simp add: RuneCountInString_def)

lemma RuneCount_pad:
  "RuneCountInString (s @ replicate n (CHR '' '')) = RuneCountInString s + n"
  using count_runes_pad[of "map of_char s" n] by (simp add: RuneCountInString_def)

lemma digit_ascii: "d < 10 \<Longrightarrow> (of_char (digit d) :: nat) < 0x80"
proof -
  assume "d < 10"
  then have "d \<in> {0,1,2,3,4,5,6,7,8,9}" by auto
  then show ?thesis by (auto simp: digit_def)
qed

lemma digits10_ascii: "\<forall>c\<in>set (digits10 n). (of_char c :: nat) < 0x80"
proof (induction n rule: digits10.induct)
  case (1 n)
  show ?case
  proof (cases "n < 10")
    case True
    then show ?thesis using digit_ascii[of n] by (simp add: digits10.simps[of n])
  next
    case False
    then show ?thesis using 1 digit_ascii[of "n mod 10"]
      by (simp add: digits10.simps[of n])
  qed
qed

lemma Itoa_ascii: "\<forall>c\<in>set (Itoa i). (of_char c :: nat) < 0x80"
  using digits10_ascii by (simp add: Itoa_def)

lemma digits10_length_pos: "0 < length (digits10 n)"
  by (cases "n < 10") (simp_all add: digits10.simps[of n])

lemma digits10_length_small:
  "n < 10 \<Longrightarrow> length (digits10 n) = 1"
  "10 \<le> n \<Longrightarrow> n < 100 \<Longrightarrow> length (digits10 n) = 2"
  "100 \<le> n \<Longrightarrow> n < 1000 \<Longrightarrow> length (digits10 n) = 3"
  "1000 \<le> n \<Longrightarrow> n < 10000 \<Longrightarrow> length (digits10 n) = 4"
proof -
  show a: "\<And>n. n < 10 \<Longrightarrow> length (digits10 n) = 1" by (simp add: digits10.simps)
  show b: "\<And>n. 10 \<le> n \<Longrightarrow> n < 100 \<Longrightarrow> length (digits10 n) = 2"
  proof -
    fix n :: nat assume "10 \<le> n" "n < 100"
    then have "n div 10 < 10" by simp
    from a[OF this] \<open>10 \<le> n\<close> show "length (digits10 n) = 2" by (simp add: digits10.simps[of n])
  qed
  show c: "\<And>n. 100 \<le> n \<Longrightarrow> n < 1000 \<Longrightarrow> length (digits10 n) = 3"
  proof -
    fix n :: nat assume "100 \<le> n" "n < 1000"
    then have "10 \<le> n div 10" "n div 10 < 100" by simp_all
    from b[OF this] \<open>100 \<le> n\<close> show "length (digits10 n) = 3" by (simp add: digits10.simps[of n])
  qed
  show "1000 \<le> n \<Longrightarrow> n < 10000 \<Longrightarrow> length (digits10 n) = 4"
  proof -
    assume "1000 \<le> n" "n < 10000"
    then have "100 \<le> n div 10" "n div 10 < 1000" by simp_all
    from c[OF this] \<open>1000 \<le> n\<close> show "length (digits10 n) = 4" by (simp add: digits10.simps[of n])
  qed
qed

lemma Sprintf_fl:
  "Sprintf e ''%s:%-4d'' [StringArg b, IntArg i] =
     b @ '':'' @ Itoa i @ replicate (4 - length (Itoa i)) (CHR '' '')"
  by (simp add: Sprintf_def verbArg_def printArg_def padString_def isDigit_def digitVal_def
      RuneCount_ascii[OF Itoa_ascii])

lemma Sprintf_pad18:
  "Sprintf e ''%-18s'' [StringArg s] = s @ replicate (18 - RuneCountInString s) (CHR '' '')"
  by (simp add: Sprintf_def verbArg_def printArg_def padString_def isDigit_def digitVal_def)

lemma Sprintf_Error:
  "Sprintf e ''Error: %v\<newline>'' [ErrorArg err] =
     ''Error: '' @
       (case err of
            nil \<Rightarrow> ''<nil>''
          | errorString m \<Rightarrow> m
          | formatter g \<Rightarrow> g \<lparr>minusFlag = False, wid = 0, widPresent = False\<rparr> (CHR ''v'')
          | nilPointer \<Rightarrow> ''<nil>''
          | panicking t \<Rightarrow> ''%!v(PANIC=Error method: '' @ t @ '')'') @ ''\<newline>''"
  by (cases err)
     (simp_all add: Sprintf_def verbArg_def printArg_def padString_def isDigit_def)

lemma HasSuffix_newline: "HasSuffix s ''\<newline>'' = (s \<noteq> [] \<and> last s = CHR ''\<newline>'')"
proof (cases s rule: rev_cases)
  case Nil
  then show ?thesis by (simp add: HasSuffix_def)
next
  case (snoc ys y)
  then show ?thesis by (auto simp: HasSuffix_def)
qed

lemma HasSuffix_append_space:
  "HasSuffix (p @ '' '' @ b) ''\<newline>'' = HasSuffix b ''\<newline>''"
  by (cases b rule: rev_cases) (simp_all add: HasSuffix_newline)

lemma message_eq:
  "message e l level skip format a =
     (if Time l then Format (Now e) else []) @ letter level @ '' '' @ location e skip @ '' ''
     @ Sprintf e format a @ (if HasSuffix (Sprintf e format a) ''\<newline>'' then [] else ''\<newline>'')"
proof -
  let ?b = "Sprintf e format a"
  let ?p = "(if Time l then Format (Now e) else []) @ letter level @ '' '' @ location e skip"
  have m: "message e l level skip format a =
     (if \<not> HasSuffix (?p @ '' '' @ ?b) ''\<newline>'' then (?p @ '' '' @ ?b) @ ''\<newline>''
      else ?p @ '' '' @ ?b)"
    by (simp add: message_def Let_def)
  show ?thesis unfolding m HasSuffix_append_space by simp
qed

lemma trailing_newlines_append:
  "trailing_newlines (p @ '' '' @ b) = trailing_newlines b"
proof (cases "\<forall>x\<in>set (rev b). x = CHR ''\<newline>''")
  case True
  then have tw: "takeWhile (\<lambda>c. c = CHR ''\<newline>'') (rev b) = rev b"
    by (simp only: takeWhile_eq_all_conv)
  have "takeWhile (\<lambda>c. c = CHR ''\<newline>'') (rev (p @ '' '' @ b)) = rev b"
    using True by (simp add: takeWhile_append)
  then show ?thesis unfolding trailing_newlines_def tw by simp
next
  case False
  then show ?thesis by (auto simp: trailing_newlines_def takeWhile_append)
qed

lemma trailing_newlines_0: "trailing_newlines b = 0 \<longleftrightarrow> \<not> HasSuffix b ''\<newline>''"
  by (cases b rule: rev_cases) (simp_all add: trailing_newlines_def HasSuffix_newline)

lemma trailing_newlines_message:
  "trailing_newlines (message e l level skip format a) =
     max 1 (trailing_newlines (Sprintf e format a))"
proof -
  let ?b = "Sprintf e format a"
  let ?p = "(if Time l then Format (Now e) else []) @ letter level @ '' '' @ location e skip"
  show ?thesis
  proof (cases "HasSuffix ?b ''\<newline>''")
    case True
    then have m: "message e l level skip format a = ?p @ '' '' @ ?b"
      by (simp add: message_eq)
    have "0 < trailing_newlines ?b" using True trailing_newlines_0[of ?b] by simp
    then show ?thesis unfolding m trailing_newlines_append by (simp add: max_def)
  next
    case False
    then have m: "message e l level skip format a = (?p @ '' '' @ ?b) @ ''\<newline>''"
      by (simp add: message_eq)
    have z: "trailing_newlines ?b = 0" using False trailing_newlines_0[of ?b] by simp
    have s: "trailing_newlines ((?p @ '' '' @ ?b) @ ''\<newline>'') = 1 + trailing_newlines (?p @ '' '' @ ?b)"
      by (simp add: trailing_newlines_def)
    show ?thesis unfolding m s trailing_newlines_append z by simp
  qed
qed

lemma appendInt_length: "length (digits10 x) \<le> width \<Longrightarrow> length (appendInt x width) = width"
  by (simp add: appendInt_def)

lemma digits10_le2: "n < 100 \<Longrightarrow> length (digits10 n) \<le> 2"
  using digits10_length_small(1,2)[of n] by (cases "n < 10") simp_all

lemma digits10_le4: "n < 10000 \<Longrightarrow> length (digits10 n) \<le> 4"
  using digits10_length_small(3,4)[of n] digits10_le2[of n]
  by (cases "n < 100"; cases "n < 1000") simp_all

lemma Format_length:
  assumes "Year t < 10000" "Month t < 100" "Day t < 100" "Hour t < 100" "Minute t < 100" "Second t < 100"
  shows "length (Format t) = 20"
  using assms by (simp add: Format_def appendInt_length digits10_le2 digits10_le4)

lemma digitVal_digit: "d < 10 \<Longrightarrow> digitVal (digit d) = d"
proof -
  assume "d < 10"
  then have "d \<in> {0,1,2,3,4,5,6,7,8,9}" by auto
  then show ?thesis by (auto simp: digit_def digitVal_def)
qed

lemma decimal_value_digits10: "decimal_value (digits10 n) = n"
proof (induction n rule: digits10.induct)
  case (1 n)
  show ?case
  proof (cases "n < 10")
    case True
    then show ?thesis by (simp add: digits10.simps[of n] decimal_value_def digitVal_digit)
  next
    case False
    then have "decimal_value (digits10 (n div 10)) = n div 10" using 1 by simp
    then show ?thesis using False
      by (simp add: digits10.simps[of n] decimal_value_def digitVal_digit)
  qed
qed

lemma digit_in: "d < 10 \<Longrightarrow> digit d \<in> set ''0123456789''"
proof -
  assume "d < 10"
  then have "d \<in> {0,1,2,3,4,5,6,7,8,9}" by auto
  then show ?thesis by (auto simp: digit_def)
qed

lemma digits10_set: "set (digits10 n) \<subseteq> set ''0123456789''"
proof (induction n rule: digits10.induct)
  case (1 n)
  show ?case
  proof (cases "n < 10")
    case True
    then show ?thesis using digit_in[of n] by (simp add: digits10.simps[of n])
  next
    case False
    then show ?thesis using 1 digit_in[of "n mod 10"] by (simp add: digits10.simps[of n])
  qed
qed

section \<open>Facts about the logger\<close>

lemma replicate_numeral: "replicate (numeral k) x = x # replicate (pred_numeral k) x"
  by (simp add: numeral_eq_Suc)

lemma location_eq:
  "location e skip =
     last18 (caller_fl e skip)
     @ replicate (18 - RuneCountInString (last18 (caller_fl e skip))) (CHR '' '')"
  by (simp add: location_def Let_def Sprintf_pad18)

lemma caller_fl_Some:
  "Caller e (2 + skip) = Some (file, line) \<Longrightarrow>
   caller_fl e skip =
     Base file @ '':'' @ digits10 line @ replicate (4 - length (digits10 line)) (CHR '' '')"
  by (simp add: caller_fl_def Sprintf_fl Itoa_def)

lemma caller_fl_None:
  "Caller e (2 + skip) = None \<Longrightarrow> caller_fl e skip = ''unknown:0   ''"
  by (simp add: caller_fl_def Sprintf_fl Itoa_def Base_def IsPathSeparator_def
      digits10.simps digit_def replicate_numeral)

lemma length_last18: "length (last18 fl) \<le> 18"
  by (simp add: last18_def)

lemma Write_sinks:
  "sinks (Write e r p st) = (sinks st)(r := sinks st r @ [WriteCall p (WriteErr e r (sinks st r) p)])"
  by (simp add: Write_def)

lemma Write_logger: "logger (Write e r p st) = logger st"
  by (simp add: Write_def)

lemma Write_neq: "Write e r p st \<noteq> st"
proof
  assume "Write e r p st = st"
  then have "sinks (Write e r p st) r = sinks st r" by simp
  then show False by (simp add: Write_sinks)
qed

lemma log_logger: "logger (log e st level skip format a) = logger st"
  by (simp add: log_def Write_logger)

lemma log_ends_gate: "Level (logger st) < level \<Longrightarrow> log_ends e st level skip format a = Returns"
  by (simp add: log_ends_def)

lemma fst_Fatalf: "fst (Fatalf e st format a) = log e st FatalLevel 1 format a"
  by (simp add: Fatalf_def Let_def os_Exit_def)

lemma fst_Fatal:
  "fst (Fatal e st err) = log e st FatalLevel 1 ''Error: %v\<newline>'' [ErrorArg err]"
  by (simp add: Fatal_def Let_def os_Exit_def)



lemma location_runes:
  "RuneCountInString (location e skip) = 18 \<and> 18 \<le> length (location e skip)"
proof -
  let ?cut = "last18 (caller_fl e skip)"
  have rc: "RuneCountInString ?cut \<le> 18"
    using RuneCount_le[of ?cut] length_last18[of "caller_fl e skip"] by simp
  have a: "RuneCountInString (location e skip) = 18"
    using rc by (simp add: location_eq RuneCount_pad)
  have b: "18 \<le> length (location e skip)"
    using RuneCount_le[of ?cut] by (simp add: location_eq)
  show ?thesis using a b by simp
qed

lemma letter_unknown:
  "level \<notin> {FatalLevel, ErrorLevel, InfoLevel, DebugLevel} \<Longrightarrow> letter level = Itoa level"
  by (simp add: letter_def levelToLetter_def)

lemma only_sink_grows_log: "only_sink_grows st (log e st level skip format a)"
  by (simp add: only_sink_grows_def log_def Write_def)

subsection \<open>The sample calls, evaluated\<close>

lemma Now_env0: "Now env0 = clock0"
  by (simp add: env0_def)

lemma WriteErr_env0: "WriteErr env0 r h p = nil"
  by (simp add: env0_def)

lemma Caller_env0: "Caller env0 (2 + 1) = Some (''/home/u/app/main.go'', 42)"
  by (simp add: env0_def)

lemma Format_clock0: "Format clock0 = ''2018/03/07 09:05:00 ''"
  by (simp add: Format_def clock0_def appendInt_def digits10.simps digit_def)

lemma letter_known:
  "letter FatalLevel = ''F''" "letter ErrorLevel = ''E''"
  "letter InfoLevel = ''_''" "letter DebugLevel = ''.''"
  by (simp_all add: letter_def levelToLetter_def ErrorLevel_def FatalLevel_def InfoLevel_def
      DebugLevel_def)

lemma Base_sample: "Base ''/home/u/app/main.go'' = ''main.go''"
  by (simp add: Base_def IsPathSeparator_def)

lemma digits10_42: "digits10 42 = ''42''"
  by (simp add: digits10.simps digit_def)

lemma caller_fl_sample: "caller_fl env0 1 = ''main.go:42  ''"
  by (simp add: caller_fl_Some[OF Caller_env0] Base_sample digits10_42 replicate_numeral)

lemma RuneCount_sample: "RuneCountInString ''main.go:42  '' = 12"
  by (simp add: RuneCountInString_def rune_size_def)

lemma location_sample: "location env0 1 = ''main.go:42        ''"
  by (simp add: location_eq caller_fl_sample last18_def RuneCount_sample replicate_numeral)

lemma body_sample: "Sprintf e ''x=%d'' [IntArg 5] = ''x=5''"
  by (simp add: Sprintf_def verbArg_def printArg_def padString_def Itoa_def digits10.simps
      digit_def isDigit_def)

lemma message_sample:
  "message env0 l ErrorLevel 1 ''x=%d'' [IntArg 5] =
     (if Time l then ''2018/03/07 09:05:00 '' else []) @ ''E main.go:42         x=5\<newline>''"
  by (simp add: message_eq letter_known location_sample body_sample Now_env0
        Format_clock0 HasSuffix_def)

lemma body_two_newlines: "Sprintf e ''a\<newline>\<newline>'' [] = ''a\<newline>\<newline>''"
  by (simp add: Sprintf_def)

lemma body_one_newline: "Sprintf e ''a\<newline>'' [] = ''a\<newline>''"
  by (simp add: Sprintf_def)

lemma doPrintf_sample: "doPrintf Text ''x=%d'' [IntArg 5] = Some ''x=5''"
  by (simp add: verbArg_def printArg_def padString_def Itoa_def digits10.simps digit_def
      isDigit_def)

lemma Write_world0:
  "Write env0 Stderr p world0 = \<lparr>logger = Default, sinks = (\<lambda>r. [])(Stderr := [WriteCall p nil])\<rparr>"
  by (simp add: Write_def world0_def WriteErr_env0)

lemma Itoa_7: "Itoa 7 = ''7''"
  by (simp add: Itoa_def digits10.simps digit_def)






lemma Caller_env_long: "Caller env_long (2 + 1) = Some (''/srv/averyverylongfilename.go'', 7)"
  by (simp add: env_long_def)

lemma Base_long: "Base ''/srv/averyverylongfilename.go'' = ''averyverylongfilename.go''"
  by (simp add: Base_def IsPathSeparator_def)

lemma digits10_7: "digits10 7 = ''7''"
  by (simp add: digits10.simps digit_def)

lemma caller_fl_long: "caller_fl env_long 1 = ''averyverylongfilename.go:7   ''"
  by (simp add: caller_fl_Some[OF Caller_env_long] Base_long digits10_7 replicate_numeral)

lemma Caller_env_euro: "Caller env_euro (2 + 1) = Some (euro @ ''abcdefgh.go'', 1)"
  by (simp add: env_euro_def)

lemma caller_fl_euro: "caller_fl env_euro 1 = euro @ ''abcdefgh.go:1   ''"
  by (simp add: caller_fl_Some[OF Caller_env_euro] Base_def IsPathSeparator_def euro_def
      digits10.simps digit_def replicate_numeral)

lemma RuneCount_euro:
  "RuneCountInString (euro @ ''abcdefgh.go:1   '') = 17"
  "RuneCountInString ([CHR 0x82, CHR 0xAC] @ ''abcdefgh.go:1   '') = 18"
  by (simp_all add: RuneCountInString_def rune_size_def utf8_first_def locb_def hicb_def
      euro_def)

lemma location_euro:
  "location env_euro 1 = [CHR 0x82, CHR 0xAC] @ ''abcdefgh.go:1   ''"
proof -
  have c: "last18 (caller_fl env_euro 1) = [CHR 0x82, CHR 0xAC] @ ''abcdefgh.go:1   ''"
    by (simp add: caller_fl_euro last18_def euro_def)
  show ?thesis unfolding location_eq c RuneCount_euro by simp
qed

lemma WriteEnds_env0: "WriteEnds env0 r h p = Returns"
  by (simp add: env0_def)



lemma file_accent:
  "concat (replicate 6 e_acute) @ ''.go'' =
     e_acute @ e_acute @ e_acute @ e_acute @ e_acute @ e_acute @ ''.go''"
  by (simp add: replicate_numeral)

lemma Caller_env_accent:
  "Caller env_accent (2 + 1) =
     Some (e_acute @ e_acute @ e_acute @ e_acute @ e_acute @ e_acute @ ''.go'', 1)"
  by (simp add: env_accent_def file_accent)

lemma caller_fl_accent:
  "caller_fl env_accent 1 =
     e_acute @ e_acute @ e_acute @ e_acute @ e_acute @ e_acute @ ''.go:1   ''"
  by (simp add: caller_fl_Some[OF Caller_env_accent] Base_def IsPathSeparator_def e_acute_def
      digits10.simps digit_def replicate_numeral)

lemma RuneCount_accent:
  "RuneCountInString (e_acute @ e_acute @ e_acute @ e_acute @ e_acute @ e_acute @ ''.go:1   '')
     = 14"
  "RuneCountInString (e_acute @ e_acute @ e_acute @ e_acute @ e_acute @ ''.go:1   '') = 13"
  by (simp_all add: RuneCountInString_def rune_size_def utf8_first_def locb_def hicb_def
      e_acute_def)

lemma location_accent:
  "location env_accent 1 =
     e_acute @ e_acute @ e_acute @ e_acute @ e_acute @ ''.go:1   '' @ ''     ''"
proof -
  have cut: "last18 (caller_fl env_accent 1) =
      e_acute @ e_acute @ e_acute @ e_acute @ e_acute @ ''.go:1   ''"
    by (simp add: caller_fl_accent last18_def e_acute_def)
  show ?thesis unfolding location_eq cut RuneCount_accent by (simp add: replicate_numeral)
qed

section \<open>The claims\<close>

text \<open>
  C1. A call of \<open>log\<close> with severity \<open>S\<close> on a logger with threshold \<open>T\<close> writes to the
  sink exactly when \<open>S \<le> T\<close>: then it makes one \<^verbatim>\<open>Write\<close> call on the logger's sink,
  with the message; when \<open>T < S\<close> it returns with the world as it was.
\<close>

theorem log_writes_iff:
  "log e st S skip format a =
     (if S \<le> Level (logger st)
      then Write e (w (logger st)) (message e (logger st) S skip format a) st
      else st)
   \<and> sinks (log e st S skip format a) (w (logger st)) =
       sinks st (w (logger st))
       @ (if S \<le> Level (logger st)
          then [WriteCall (message e (logger st) S skip format a)
                  (WriteErr e (w (logger st)) (sinks st (w (logger st)))
                     (message e (logger st) S skip format a))]
          else [])
   \<and> ((log e st S skip format a = st) = (Level (logger st) < S))"
proof (cases "Level (logger st) < S")
  case True
  then show ?thesis by (simp add: log_def)
next
  case False
  then have l: "log e st S skip format a =
      Write e (w (logger st)) (message e (logger st) S skip format a) st"
    by (simp add: log_def)
  show ?thesis using False unfolding l by (simp add: Write_neq Write_sinks)
qed

theorem log_writes_iff_witness:
  "sinks (log env0 world0 ErrorLevel 1 ''x=%d'' [IntArg 5]) Stderr =
     [WriteCall ''2018/03/07 09:05:00 E main.go:42         x=5\<newline>'' nil]
   \<and> log env0 world0 DebugLevel 1 ''x=%d'' [IntArg 5] = world0"
  using log_writes_iff[of env0 world0 ErrorLevel 1 "''x=%d''" "[IntArg 5]"]
    log_writes_iff[of env0 world0 DebugLevel 1 "''x=%d''" "[IntArg 5]"]
  by (simp add: world0_def Default_def ErrorLevel_def DebugLevel_def
      message_sample[unfolded ErrorLevel_def] WriteErr_env0 Write_sinks)

text \<open>
  C2, as amended. The message always ends with a newline. One is appended exactly when
  the formatted body does not end with one; a body that ends with newlines keeps all of
  them, so the message ends with as many newlines as the body does, and with one when
  the body has none.
\<close>

theorem message_trailing_newline:
  "message e l level skip format a =
     (if Time l then Format (Now e) else []) @ letter level @ '' '' @ location e skip @ '' ''
     @ Sprintf e format a
     @ (if HasSuffix (Sprintf e format a) ''\<newline>'' then [] else ''\<newline>'')
   \<and> HasSuffix (message e l level skip format a) ''\<newline>''
   \<and> trailing_newlines (message e l level skip format a) =
       max 1 (trailing_newlines (Sprintf e format a))"
proof -
  have "0 < trailing_newlines (message e l level skip format a)"
    by (simp add: trailing_newlines_message)
  then have "HasSuffix (message e l level skip format a) ''\<newline>''"
    using trailing_newlines_0[of "message e l level skip format a"] by simp
  then show ?thesis using message_eq trailing_newlines_message by simp
qed

theorem message_trailing_newline_witness:
  "message env0 Default ErrorLevel 1 ''x=%d'' [IntArg 5] =
     ''2018/03/07 09:05:00 E main.go:42         x=5\<newline>''
   \<and> message env0 Default ErrorLevel 1 ''a\<newline>'' [] =
     ''2018/03/07 09:05:00 E main.go:42         a\<newline>''"
  using message_trailing_newline[of env0 Default ErrorLevel 1 "''x=%d''" "[IntArg 5]"]
    message_trailing_newline[of env0 Default ErrorLevel 1 "''a\<newline>''" "[]"]
  by (simp add: Default_def letter_known location_sample body_sample body_one_newline
      Now_env0 Format_clock0 HasSuffix_def)

theorem message_two_newlines_counterexample:
  "message env0 Default ErrorLevel 1 ''a\<newline>\<newline>'' [] =
     ''2018/03/07 09:05:00 E main.go:42         a\<newline>\<newline>''
   \<and> HasSuffix (message env0 Default ErrorLevel 1 ''a\<newline>\<newline>'' []) ''\<newline>\<newline>''"
  by (simp add: message_eq Default_def letter_known location_sample body_two_newlines
      Now_env0 Format_clock0 HasSuffix_def)

text \<open>
  C3. The location field is not 18 wide for every file name. For the file named by six
  two-byte letters and \<^verbatim>\<open>.go\<close>, line 1, the rendering has 14 characters in 20 bytes:
  lines 87 to 89 cut its first letter away and line 90 pads what is left, so the field
  is 23 bytes long and is not the rendering padded to 18. For the file named by the
  euro sign and \<^verbatim>\<open>abcdefgh.go\<close>, line 1, the rendering has 17 characters in 19 bytes:
  the cut takes the first byte of the euro sign away and the field starts with the
  bytes \<^verbatim>\<open>82 AC\<close>, which are no character, and is not the rendering padded to 18.
\<close>

theorem location_cut_by_bytes:
  "length (caller_fl env_accent 1) = 20
   \<and> RuneCountInString (caller_fl env_accent 1) = 14
   \<and> location env_accent 1 =
       e_acute @ e_acute @ e_acute @ e_acute @ e_acute @ ''.go:1   '' @ ''     ''
   \<and> length (location env_accent 1) = 23
   \<and> location env_accent 1 \<noteq> caller_fl env_accent 1 @ ''    ''
   \<and> length (caller_fl env_euro 1) = 19
   \<and> RuneCountInString (caller_fl env_euro 1) = 17
   \<and> location env_euro 1 = [CHR 0x82, CHR 0xAC] @ ''abcdefgh.go:1   ''
   \<and> location env_euro 1 \<noteq> caller_fl env_euro 1 @ '' ''"
  unfolding location_accent caller_fl_accent RuneCount_accent
    location_euro caller_fl_euro RuneCount_euro
  by (simp add: e_acute_def euro_def)

text \<open>
  C4. \<open>Errorf\<close> returns a non-nil error whose message is the formatted text, whatever
  the threshold: the returned error does not depend on the logger or its sink, it is
  returned also when the gate drops the message, and \<^verbatim>\<open>Errorf("x=%d", 5)\<close> returns an
  error with the message \<^verbatim>\<open>x=5\<close>.
\<close>

theorem Errorf_returns_error:
  "snd (Errorf e st format a) =
     errorString (case doPrintf Text format a of
                    Some s \<Rightarrow> s
                  | None \<Rightarrow> ErrorfOther e format a)
   \<and> snd (Errorf e st format a) \<noteq> nil
   \<and> snd (Errorf e st' format a) = snd (Errorf e st format a)
   \<and> snd (Errorf e st ''x=%d'' [IntArg 5]) = errorString ''x=5''
   \<and> fst (Errorf e st format a) =
       (if ErrorLevel \<le> Level (logger st)
        then Write e (w (logger st)) (message e (logger st) ErrorLevel 1 format a) st
        else st)"
proof -
  have r: "snd (Errorf e s f b) = fmt_Errorf e f b" for s f b
    by (simp add: Errorf_def)
  have a: "snd (Errorf e st format a) =
     errorString (case doPrintf Text format a of
                    Some s \<Rightarrow> s
                  | None \<Rightarrow> ErrorfOther e format a)"
    unfolding r by (simp add: fmt_Errorf_def)
  have b: "snd (Errorf e st format a) \<noteq> nil"
    unfolding r by (simp add: fmt_Errorf_def)
  have c: "snd (Errorf e st' format a) = snd (Errorf e st format a)"
    unfolding r by (rule refl)
  have d: "snd (Errorf e st ''x=%d'' [IntArg 5]) = errorString ''x=5''"
    unfolding r fmt_Errorf_def doPrintf_sample by simp
  have f: "fst (Errorf e st format a) =
       (if ErrorLevel \<le> Level (logger st)
        then Write e (w (logger st)) (message e (logger st) ErrorLevel 1 format a) st
        else st)"
    by (simp add: Errorf_def log_def)
  show ?thesis by (intro conjI a b c d f)
qed

theorem Errorf_returns_error_witness:
  "Errorf env0 (world0\<lparr>logger := Default\<lparr>Level := FatalLevel\<rparr>\<rparr>) ''x=%d'' [IntArg 5] =
     (world0\<lparr>logger := Default\<lparr>Level := FatalLevel\<rparr>\<rparr>, errorString ''x=5'')"
proof -
  note t = Errorf_returns_error[of env0 "world0\<lparr>logger := Default\<lparr>Level := FatalLevel\<rparr>\<rparr>"
      "''x=%d''" "[IntArg 5]" world0]
  from t have s: "snd (Errorf env0 (world0\<lparr>logger := Default\<lparr>Level := FatalLevel\<rparr>\<rparr>)
      ''x=%d'' [IntArg 5]) = errorString ''x=5''"
    by (elim conjE)
  from t have "fst (Errorf env0 (world0\<lparr>logger := Default\<lparr>Level := FatalLevel\<rparr>\<rparr>)
      ''x=%d'' [IntArg 5]) =
       (if ErrorLevel \<le> Level (logger (world0\<lparr>logger := Default\<lparr>Level := FatalLevel\<rparr>\<rparr>))
        then Write env0 (w (logger (world0\<lparr>logger := Default\<lparr>Level := FatalLevel\<rparr>\<rparr>)))
               (message env0 (logger (world0\<lparr>logger := Default\<lparr>Level := FatalLevel\<rparr>\<rparr>))
                  ErrorLevel 1 ''x=%d'' [IntArg 5])
               (world0\<lparr>logger := Default\<lparr>Level := FatalLevel\<rparr>\<rparr>)
        else world0\<lparr>logger := Default\<lparr>Level := FatalLevel\<rparr>\<rparr>)"
    by (elim conjE)
  then have f: "fst (Errorf env0 (world0\<lparr>logger := Default\<lparr>Level := FatalLevel\<rparr>\<rparr>)
      ''x=%d'' [IntArg 5]) = world0\<lparr>logger := Default\<lparr>Level := FatalLevel\<rparr>\<rparr>"
    by (simp add: ErrorLevel_def FatalLevel_def)
  show ?thesis using s f by (simp add: prod_eq_iff)
qed

text \<open>
  C5. With everything else fixed, the message with the timestamp flag on is the
  timestamp followed by the message with the flag off. For a clock reading with a year
  of at most four digits the timestamp is 20 bytes, so the message with the flag off is
  the other one without its first 20 bytes.
\<close>

theorem message_timestamp:
  "message e (l\<lparr>Time := True\<rparr>) level skip format a =
     Format (Now e) @ message e (l\<lparr>Time := False\<rparr>) level skip format a
   \<and> Format (Now e) =
       appendInt (Year (Now e)) 4 @ ''/'' @ appendInt (Month (Now e)) 2 @ ''/''
       @ appendInt (Day (Now e)) 2 @ '' '' @ appendInt (Hour (Now e)) 2 @ '':''
       @ appendInt (Minute (Now e)) 2 @ '':'' @ appendInt (Second (Now e)) 2 @ '' ''
   \<and> (Year (Now e) < 10000 \<and> Month (Now e) \<le> 12 \<and> Day (Now e) \<le> 31 \<and> Hour (Now e) < 24
        \<and> Minute (Now e) < 60 \<and> Second (Now e) < 60 \<longrightarrow>
        length (Format (Now e)) = 20
        \<and> message e (l\<lparr>Time := False\<rparr>) level skip format a =
            drop 20 (message e (l\<lparr>Time := True\<rparr>) level skip format a))"
proof -
  have a: "message e (l\<lparr>Time := True\<rparr>) level skip format a =
     Format (Now e) @ message e (l\<lparr>Time := False\<rparr>) level skip format a"
    by (simp add: message_eq)
  have b: "length (Format (Now e)) = 20"
    if "Year (Now e) < 10000 \<and> Month (Now e) \<le> 12 \<and> Day (Now e) \<le> 31 \<and> Hour (Now e) < 24
        \<and> Minute (Now e) < 60 \<and> Second (Now e) < 60"
    using that by (intro Format_length) simp_all
  have c: "message e (l\<lparr>Time := False\<rparr>) level skip format a =
            drop 20 (message e (l\<lparr>Time := True\<rparr>) level skip format a)"
    if "length (Format (Now e)) = 20"
    unfolding a using that by simp
  have d: "Format (Now e) =
       appendInt (Year (Now e)) 4 @ ''/'' @ appendInt (Month (Now e)) 2 @ ''/''
       @ appendInt (Day (Now e)) 2 @ '' '' @ appendInt (Hour (Now e)) 2 @ '':''
       @ appendInt (Minute (Now e)) 2 @ '':'' @ appendInt (Second (Now e)) 2 @ '' ''"
    by (simp add: Format_def)
  show ?thesis using b c by (intro conjI a d) blast
qed

theorem message_timestamp_witness:
  "message env0 (Default\<lparr>Time := True\<rparr>) ErrorLevel 1 ''x=%d'' [IntArg 5] =
     ''2018/03/07 09:05:00 E main.go:42         x=5\<newline>''
   \<and> message env0 (Default\<lparr>Time := False\<rparr>) ErrorLevel 1 ''x=%d'' [IntArg 5] =
     ''E main.go:42         x=5\<newline>''"
  using message_timestamp[of env0 Default ErrorLevel 1 "''x=%d''" "[IntArg 5]"]
  by (simp add: message_sample Now_env0 Format_clock0)

text \<open>
  C6. For every error \<open>err\<close>, \<open>Error err\<close> calls \<open>log\<close> at the level Error with a
  body that is \<^verbatim>\<open>Error: \<close> followed by the rendering of \<open>err\<close> under \<^verbatim>\<open>%v\<close> and a
  newline, and returns \<open>err\<close> itself. The rendering is \<^verbatim>\<open><nil>\<close> for the nil error,
  what the \<^verbatim>\<open>Format\<close> method writes for an error that has one, and otherwise the text
  of the \<^verbatim>\<open>Error\<close> method, or what \<^verbatim>\<open>fmt\<close> writes in its place when that method
  panics.
\<close>

theorem Error_logs_and_returns:
  "snd (Error e st err) = err
   \<and> fst (Error e st err) =
       (if ErrorLevel \<le> Level (logger st)
        then Write e (w (logger st))
               (message e (logger st) ErrorLevel 1 ''Error: %v\<newline>'' [ErrorArg err]) st
        else st)
   \<and> message e l ErrorLevel 1 ''Error: %v\<newline>'' [ErrorArg err] =
       (if Time l then Format (Now e) else []) @ ''E '' @ location e 1 @ '' ''
       @ ''Error: '' @
         (case err of
            nil \<Rightarrow> ''<nil>''
          | errorString m \<Rightarrow> m
          | formatter g \<Rightarrow> g \<lparr>minusFlag = False, wid = 0, widPresent = False\<rparr> (CHR ''v'')
          | nilPointer \<Rightarrow> ''<nil>''
          | panicking t \<Rightarrow> ''%!v(PANIC=Error method: '' @ t @ '')'') @ ''\<newline>''"
proof -
  have a: "snd (Error e st err) = err"
    by (simp add: Error_def)
  have b: "fst (Error e st err) =
       (if ErrorLevel \<le> Level (logger st)
        then Write e (w (logger st))
               (message e (logger st) ErrorLevel 1 ''Error: %v\<newline>'' [ErrorArg err]) st
        else st)"
    unfolding Error_def Let_def fst_conv log_def by simp
  have h: "HasSuffix (''Error: '' @ x @ ''\<newline>'') ''\<newline>''" for x
    by (simp add: HasSuffix_newline)
  have c: "message e l ErrorLevel 1 ''Error: %v\<newline>'' [ErrorArg err] =
       (if Time l then Format (Now e) else []) @ ''E '' @ location e 1 @ '' ''
       @ ''Error: '' @
         (case err of
            nil \<Rightarrow> ''<nil>''
          | errorString m \<Rightarrow> m
          | formatter g \<Rightarrow> g \<lparr>minusFlag = False, wid = 0, widPresent = False\<rparr> (CHR ''v'')
          | nilPointer \<Rightarrow> ''<nil>''
          | panicking t \<Rightarrow> ''%!v(PANIC=Error method: '' @ t @ '')'') @ ''\<newline>''"
    unfolding message_eq Sprintf_Error letter_known using h by simp
  show ?thesis by (intro conjI a b c)
qed

theorem Error_logs_and_returns_witness:
  "Error env0 world0 (errorString ''disk full'') =
     (\<lparr>logger = Default,
       sinks = (\<lambda>r. [])(Stderr :=
         [WriteCall ''2018/03/07 09:05:00 E main.go:42         Error: disk full\<newline>'' nil])\<rparr>,
      errorString ''disk full'')
   \<and> Error env0 world0 err_formatted =
     (\<lparr>logger = Default,
       sinks = (\<lambda>r. [])(Stderr :=
         [WriteCall ''2018/03/07 09:05:00 E main.go:42         Error: FORMATTED\<newline>'' nil])\<rparr>,
      err_formatted)
   \<and> message env0 Default ErrorLevel 1 ''Error: %v\<newline>'' [ErrorArg nil] =
       ''2018/03/07 09:05:00 E main.go:42         Error: <nil>\<newline>''
   \<and> message env0 Default ErrorLevel 1 ''Error: %v\<newline>'' [ErrorArg (panicking ''boom'')] =
       ''2018/03/07 09:05:00 E main.go:42         Error: %!v(PANIC=Error method: boom)\<newline>''"
proof -
  have l: "logger world0 = Default" by (simp add: world0_def)
  have run: "Error env0 world0 err =
     (\<lparr>logger = Default, sinks = (\<lambda>r. [])(Stderr := [WriteCall m nil])\<rparr>, err)"
    if m: "message env0 Default ErrorLevel 1 ''Error: %v\<newline>'' [ErrorArg err] = m"
    for err m
  proof -
    note t = Error_logs_and_returns[of env0 world0 err Default]
    from t have s: "snd (Error env0 world0 err) = err"
      by (elim conjE)
    from t have "fst (Error env0 world0 err) =
       (if ErrorLevel \<le> Level (logger world0)
        then Write env0 (w (logger world0))
               (message env0 (logger world0) ErrorLevel 1 ''Error: %v\<newline>''
                  [ErrorArg err]) world0
        else world0)"
      by (elim conjE)
    then have f: "fst (Error env0 world0 err) =
      \<lparr>logger = Default, sinks = (\<lambda>r. [])(Stderr := [WriteCall m nil])\<rparr>"
      unfolding l m by (simp add: Default_def ErrorLevel_def Write_world0[unfolded Default_def])
    show ?thesis using s f by (simp add: prod_eq_iff)
  qed
  have msg: "message env0 Default ErrorLevel 1 ''Error: %v\<newline>'' [ErrorArg err] =
       ''2018/03/07 09:05:00 E main.go:42         Error: '' @
         (case err of
            nil \<Rightarrow> ''<nil>''
          | errorString m \<Rightarrow> m
          | formatter g \<Rightarrow> g \<lparr>minusFlag = False, wid = 0, widPresent = False\<rparr> (CHR ''v'')
          | nilPointer \<Rightarrow> ''<nil>''
          | panicking t \<Rightarrow> ''%!v(PANIC=Error method: '' @ t @ '')'') @ ''\<newline>''" for err
    using Error_logs_and_returns[of env0 world0 err Default]
    by (simp add: Default_def Now_env0 Format_clock0 location_sample)
  have m1: "message env0 Default ErrorLevel 1 ''Error: %v\<newline>''
       [ErrorArg (errorString ''disk full'')] =
       ''2018/03/07 09:05:00 E main.go:42         Error: disk full\<newline>''"
    unfolding msg by simp
  have m2: "message env0 Default ErrorLevel 1 ''Error: %v\<newline>'' [ErrorArg err_formatted] =
       ''2018/03/07 09:05:00 E main.go:42         Error: FORMATTED\<newline>''"
    unfolding msg by (simp add: err_formatted_def)
  have m3: "message env0 Default ErrorLevel 1 ''Error: %v\<newline>'' [ErrorArg nil] =
       ''2018/03/07 09:05:00 E main.go:42         Error: <nil>\<newline>''"
    unfolding msg by simp
  have m4: "message env0 Default ErrorLevel 1 ''Error: %v\<newline>''
       [ErrorArg (panicking ''boom'')] =
       ''2018/03/07 09:05:00 E main.go:42         Error: %!v(PANIC=Error method: boom)\<newline>''"
    unfolding msg by simp
  show ?thesis by (intro conjI run[OF m1] run[OF m2] m3 m4)
qed

text \<open>
  C7. For a level that is none of Fatal, Error, Info and Debug, the marker of the
  emitted line is the decimal rendering of the level's number (a minus sign first when
  it is negative), and a call that passes the gate writes the line with this marker.
\<close>

theorem unknown_level_marker:
  assumes "level \<notin> {FatalLevel, ErrorLevel, InfoLevel, DebugLevel}"
  shows "letter level = Itoa level
   \<and> Itoa level = (if level < 0 then ''-'' else []) @ digits10 (nat \<bar>level\<bar>)
   \<and> decimal_value (digits10 (nat \<bar>level\<bar>)) = nat \<bar>level\<bar>
   \<and> set (digits10 (nat \<bar>level\<bar>)) \<subseteq> set ''0123456789''
   \<and> message e l level skip format a =
       (if Time l then Format (Now e) else []) @ Itoa level @ '' '' @ location e skip @ '' ''
       @ Sprintf e format a
       @ (if HasSuffix (Sprintf e format a) ''\<newline>'' then [] else ''\<newline>'')
   \<and> (level \<le> Level (logger st) \<longrightarrow>
        sinks (log e st level skip format a) (w (logger st)) =
          sinks st (w (logger st))
          @ [WriteCall (message e (logger st) level skip format a)
               (WriteErr e (w (logger st)) (sinks st (w (logger st)))
                  (message e (logger st) level skip format a))])"
proof -
  have a: "letter level = Itoa level" using assms by (rule letter_unknown)
  have b: "Itoa level = (if level < 0 then ''-'' else []) @ digits10 (nat \<bar>level\<bar>)"
    by (simp add: Itoa_def)
  have c: "message e l level skip format a =
       (if Time l then Format (Now e) else []) @ Itoa level @ '' '' @ location e skip @ '' ''
       @ Sprintf e format a
       @ (if HasSuffix (Sprintf e format a) ''\<newline>'' then [] else ''\<newline>'')"
    unfolding message_eq a by (rule refl)
  have d: "level \<le> Level (logger st) \<longrightarrow>
        sinks (log e st level skip format a) (w (logger st)) =
          sinks st (w (logger st))
          @ [WriteCall (message e (logger st) level skip format a)
               (WriteErr e (w (logger st)) (sinks st (w (logger st)))
                  (message e (logger st) level skip format a))]"
    by (simp add: log_def Write_sinks)
  show ?thesis by (intro conjI a b c d decimal_value_digits10 digits10_set)
qed

theorem unknown_level_marker_witness:
  "(7 :: Level) \<notin> {FatalLevel, ErrorLevel, InfoLevel, DebugLevel}
   \<and> sinks (log env0 (world0\<lparr>logger := Default\<lparr>Level := 7\<rparr>\<rparr>) 7 1 ''x=%d'' [IntArg 5]) Stderr =
       [WriteCall ''2018/03/07 09:05:00 7 main.go:42         x=5\<newline>'' nil]"
proof -
  let ?st = "world0\<lparr>logger := Default\<lparr>Level := 7\<rparr>\<rparr>"
  have n: "(7 :: Level) \<notin> {FatalLevel, ErrorLevel, InfoLevel, DebugLevel}"
    by (simp add: FatalLevel_def ErrorLevel_def InfoLevel_def DebugLevel_def)
  note t = unknown_level_marker[OF n, of env0 "logger ?st" 1 "''x=%d''" "[IntArg 5]" ?st]
  from t have m: "message env0 (logger ?st) 7 1 ''x=%d'' [IntArg 5] =
      ''2018/03/07 09:05:00 7 main.go:42         x=5\<newline>''"
    by (simp add: Default_def world0_def Now_env0 Format_clock0 Itoa_7 location_sample
        body_sample HasSuffix_def)
  from t have "sinks (log env0 ?st 7 1 ''x=%d'' [IntArg 5]) (w (logger ?st)) =
          sinks ?st (w (logger ?st))
          @ [WriteCall (message env0 (logger ?st) 7 1 ''x=%d'' [IntArg 5])
               (WriteErr env0 (w (logger ?st)) (sinks ?st (w (logger ?st)))
                  (message env0 (logger ?st) 7 1 ''x=%d'' [IntArg 5]))]"
    by (simp add: Default_def world0_def)
  then have "sinks (log env0 ?st 7 1 ''x=%d'' [IntArg 5]) Stderr =
       [WriteCall ''2018/03/07 09:05:00 7 main.go:42         x=5\<newline>'' nil]"
    unfolding m by (simp add: Default_def world0_def WriteErr_env0)
  then show ?thesis using n by simp
qed




text \<open>
  C9. Before it is cut and padded to the width 18, the location is the basename of
  the file, a colon, and the line number followed by spaces up to a width of 4. For a
  line number below 1000 there is at least one such space and the rendering is 5 bytes
  longer than the basename; the spaces are part of what is cut to the last 18 bytes,
  so of a long basename the last 13 bytes are kept. When \<^verbatim>\<open>runtime.Caller\<close> fails the
  rendering is \<^verbatim>\<open>unknown:0\<close> and three spaces.
\<close>

theorem location_line_padding:
  "(case Caller e (2 + skip) of
      None \<Rightarrow> caller_fl e skip = ''unknown:0   ''
    | Some (file, line) \<Rightarrow>
        caller_fl e skip =
          Base file @ '':'' @ digits10 line @ replicate (4 - length (digits10 line)) (CHR '' '')
        \<and> decimal_value (digits10 line) = line
        \<and> (line < 1000 \<longrightarrow>
             0 < 4 - length (digits10 line)
             \<and> length (caller_fl e skip) = length (Base file) + 5
             \<and> last18 (caller_fl e skip) =
                 drop (length (Base file) - 13) (Base file) @ '':'' @ digits10 line
                 @ replicate (4 - length (digits10 line)) (CHR '' '')))
   \<and> location e skip =
       last18 (caller_fl e skip)
       @ replicate (18 - RuneCountInString (last18 (caller_fl e skip))) (CHR '' '')"
proof -
  have some: "caller_fl e skip =
          Base file @ '':'' @ digits10 line @ replicate (4 - length (digits10 line)) (CHR '' '')
        \<and> decimal_value (digits10 line) = line
        \<and> (line < 1000 \<longrightarrow>
             0 < 4 - length (digits10 line)
             \<and> length (caller_fl e skip) = length (Base file) + 5
             \<and> last18 (caller_fl e skip) =
                 drop (length (Base file) - 13) (Base file) @ '':'' @ digits10 line
                 @ replicate (4 - length (digits10 line)) (CHR '' ''))"
    if c: "Caller e (2 + skip) = Some (file, line)" for "file" line
  proof -
    note fl = caller_fl_Some[OF c]
    have small: "0 < 4 - length (digits10 line)
             \<and> length (caller_fl e skip) = length (Base file) + 5
             \<and> last18 (caller_fl e skip) =
                 drop (length (Base file) - 13) (Base file) @ '':'' @ digits10 line
                 @ replicate (4 - length (digits10 line)) (CHR '' '')"
      if lt: "line < 1000"
    proof -
      have len: "length (digits10 line) \<le> 3"
        using digits10_length_small(1,2,3)[of line] lt
        by (cases "line < 10"; cases "line < 100") simp_all
      have pos: "0 < length (digits10 line)" by (rule digits10_length_pos)
      have n: "length (caller_fl e skip) = length (Base file) + 5"
        unfolding fl using len pos by simp
      have "last18 (caller_fl e skip) =
                 drop (length (Base file) - 13) (Base file) @ '':'' @ digits10 line
                 @ replicate (4 - length (digits10 line)) (CHR '' '')"
        unfolding last18_def n unfolding fl by simp
      then show ?thesis using len n by simp
    qed
    show ?thesis using fl small decimal_value_digits10 by blast
  qed
  show ?thesis
  proof (cases "Caller e (2 + skip)")
    case None
    have "caller_fl e skip = ''unknown:0   ''" using None by (rule caller_fl_None)
    then show ?thesis unfolding None option.case by (rule conjI[OF _ location_eq])
  next
    case (Some p)
    obtain fname n where p: "p = (fname, n)" by (cases p)
    have c: "Caller e (2 + skip) = Some (fname, n)" using Some p by simp
    show ?thesis unfolding c option.case prod.case
      by (rule conjI[OF some[OF c] location_eq])
  qed
qed

theorem location_line_padding_witness:
  "caller_fl env_long 1 = ''averyverylongfilename.go:7   ''
   \<and> last18 (caller_fl env_long 1) = ''ngfilename.go:7   ''
   \<and> location env_long 1 = ''ngfilename.go:7   ''"
proof -
  note t = location_line_padding[of env_long 1, unfolded Caller_env_long option.case prod.case
      Base_long digits10_7]
  from t have a: "caller_fl env_long 1 = ''averyverylongfilename.go:7   ''"
    by (simp add: replicate_numeral)
  from t have b: "last18 (caller_fl env_long 1) = ''ngfilename.go:7   ''"
    by (simp add: replicate_numeral last18_def)
  have r: "RuneCountInString ''ngfilename.go:7   '' = 18"
    by (simp add: RuneCountInString_def rune_size_def)
  from t have "location env_long 1 =
       last18 (caller_fl env_long 1)
       @ replicate (18 - RuneCountInString (last18 (caller_fl env_long 1))) (CHR '' '')"
    by (elim conjE)
  then have c: "location env_long 1 = ''ngfilename.go:7   ''"
    unfolding b r by simp
  show ?thesis by (intro conjI a b c)
qed

text \<open>
  C10. No logging operation changes the logger: its level, its timestamp flag and its
  sink reference are after the call what they were before. The world after the call is
  the world before it except for the history of the logger's sink, which has the old
  history as a prefix.
\<close>

theorem logging_keeps_logger:
  "logger (log e st level skip format a) = logger st
   \<and> logger (Debugf e st format a) = logger st
   \<and> logger (Infof e st format a) = logger st
   \<and> logger (fst (Errorf e st format a)) = logger st
   \<and> logger (fst (Error e st err)) = logger st
   \<and> logger (fst (Fatalf e st format a)) = logger st
   \<and> logger (fst (Fatal e st err)) = logger st
   \<and> only_sink_grows st (log e st level skip format a)
   \<and> only_sink_grows st (Debugf e st format a)
   \<and> only_sink_grows st (Infof e st format a)
   \<and> only_sink_grows st (fst (Errorf e st format a))
   \<and> only_sink_grows st (fst (Error e st err))
   \<and> only_sink_grows st (fst (Fatalf e st format a))
   \<and> only_sink_grows st (fst (Fatal e st err))"
  by (simp add: Debugf_def Infof_def Errorf_def Error_def fst_Fatalf fst_Fatal
      log_logger only_sink_grows_log)

theorem logging_keeps_logger_witness:
  "logger (log env0 world0 ErrorLevel 1 ''x=%d'' [IntArg 5]) = Default
   \<and> Level (logger (fst (Fatalf env0 world0 ''x=%d'' [IntArg 5]))) = ErrorLevel
   \<and> Time (logger (fst (Errorf env0 world0 ''x=%d'' [IntArg 5])))
   \<and> w (logger (Debugf env0 world0 ''x=%d'' [IntArg 5])) = Stderr
   \<and> sinks (log env0 world0 ErrorLevel 1 ''x=%d'' [IntArg 5]) 5 = []"
proof -
  note t = logging_keeps_logger[of env0 world0 ErrorLevel 1 "''x=%d''" "[IntArg 5]" nil]
  have l: "logger world0 = Default" by (simp add: world0_def)
  from t have a: "logger (log env0 world0 ErrorLevel 1 ''x=%d'' [IntArg 5]) = Default"
    unfolding l by (elim conjE)
  from t have b: "Level (logger (fst (Fatalf env0 world0 ''x=%d'' [IntArg 5]))) = ErrorLevel"
    unfolding l by (simp add: Default_def)
  from t have c: "Time (logger (fst (Errorf env0 world0 ''x=%d'' [IntArg 5])))"
    unfolding l by (simp add: Default_def)
  from t have d: "w (logger (Debugf env0 world0 ''x=%d'' [IntArg 5])) = Stderr"
    unfolding l by (simp add: Default_def)
  from t have "only_sink_grows world0 (log env0 world0 ErrorLevel 1 ''x=%d'' [IntArg 5])"
    by (elim conjE)
  then have "log env0 world0 ErrorLevel 1 ''x=%d'' [IntArg 5] =
      world0\<lparr>sinks := (sinks world0)(w (logger world0) :=
         sinks (log env0 world0 ErrorLevel 1 ''x=%d'' [IntArg 5]) (w (logger world0)))\<rparr>"
    unfolding only_sink_grows_def by (elim conjE)
  then have "sinks (log env0 world0 ErrorLevel 1 ''x=%d'' [IntArg 5]) 5 =
      sinks (world0\<lparr>sinks := (sinks world0)(w (logger world0) :=
         sinks (log env0 world0 ErrorLevel 1 ''x=%d'' [IntArg 5]) (w (logger world0)))\<rparr>) 5"
    by simp
  then have f: "sinks (log env0 world0 ErrorLevel 1 ''x=%d'' [IntArg 5]) 5 = []"
    by (simp add: world0_def Default_def Stderr_def)
  show ?thesis by (intro conjI a b c d f)
qed

section \<open>Further properties: what each level lets through\<close>

text \<open>
  X1. A logger made by \<open>New\<close>, and the logger \<open>Default\<close>, have the level Error and
  the timestamp on. At the level Error, \<open>Debugf\<close> and \<open>Infof\<close> leave the world as it
  is, and \<open>Errorf\<close>, \<open>Error\<close>, \<open>Fatalf\<close> and \<open>Fatal\<close> each make one \<^verbatim>\<open>Write\<close>.
\<close>

theorem error_level_filters:
  "Level (New r) = ErrorLevel \<and> Time (New r) \<and> w (New r) = r
   \<and> Level Default = ErrorLevel \<and> Time Default \<and> w Default = Stderr
   \<and> (Level (logger st) = ErrorLevel \<longrightarrow>
        Debugf e st format a = st
        \<and> Infof e st format a = st
        \<and> fst (Errorf e st format a) =
            Write e (w (logger st)) (message e (logger st) ErrorLevel 1 format a) st
        \<and> fst (Error e st err) =
            Write e (w (logger st))
              (message e (logger st) ErrorLevel 1 ''Error: %v\<newline>'' [ErrorArg err]) st
        \<and> fst (Fatalf e st format a) =
            Write e (w (logger st)) (message e (logger st) FatalLevel 1 format a) st
        \<and> fst (Fatal e st err) =
            Write e (w (logger st))
              (message e (logger st) FatalLevel 1 ''Error: %v\<newline>'' [ErrorArg err]) st)"
  by (simp add: New_def Default_def Debugf_def Infof_def Errorf_def Error_def fst_Fatalf
      fst_Fatal log_def ErrorLevel_def DebugLevel_def InfoLevel_def FatalLevel_def)

theorem error_level_filters_witness:
  "Debugf env0 world0 ''x=%d'' [IntArg 5] = world0
   \<and> sinks (fst (Errorf env0 world0 ''x=%d'' [IntArg 5])) Stderr =
       [WriteCall ''2018/03/07 09:05:00 E main.go:42         x=5\<newline>'' nil]"
proof -
  note t = error_level_filters[of 0 world0 env0 "''x=%d''" "[IntArg 5]" nil]
  have l: "Level (logger world0) = ErrorLevel" "logger world0 = Default"
    by (simp_all add: world0_def Default_def)
  from t l have a: "Debugf env0 world0 ''x=%d'' [IntArg 5] = world0"
    by blast
  from t l(1) have "fst (Errorf env0 world0 ''x=%d'' [IntArg 5]) =
      Write env0 (w (logger world0)) (message env0 (logger world0) ErrorLevel 1 ''x=%d''
        [IntArg 5]) world0"
    by blast
  then have b: "sinks (fst (Errorf env0 world0 ''x=%d'' [IntArg 5])) Stderr =
       [WriteCall ''2018/03/07 09:05:00 E main.go:42         x=5\<newline>'' nil]"
    unfolding l message_sample
    by (simp add: Default_def Write_sinks WriteErr_env0) (simp add: world0_def)
  show ?thesis by (intro conjI a b)
qed

text \<open>
  X2. At the level Debug every entry point makes its \<^verbatim>\<open>Write\<close>; at the level Info
  all but \<open>Debugf\<close> do.
\<close>

theorem debug_and_info_levels:
  "(Level (logger st) = DebugLevel \<longrightarrow>
      Debugf e st format a =
        Write e (w (logger st)) (message e (logger st) DebugLevel 1 format a) st
      \<and> Infof e st format a =
          Write e (w (logger st)) (message e (logger st) InfoLevel 1 format a) st
      \<and> fst (Errorf e st format a) =
          Write e (w (logger st)) (message e (logger st) ErrorLevel 1 format a) st
      \<and> fst (Fatalf e st format a) =
          Write e (w (logger st)) (message e (logger st) FatalLevel 1 format a) st)
   \<and> (Level (logger st) = InfoLevel \<longrightarrow>
      Debugf e st format a = st
      \<and> Infof e st format a =
          Write e (w (logger st)) (message e (logger st) InfoLevel 1 format a) st
      \<and> fst (Errorf e st format a) =
          Write e (w (logger st)) (message e (logger st) ErrorLevel 1 format a) st
      \<and> fst (Fatalf e st format a) =
          Write e (w (logger st)) (message e (logger st) FatalLevel 1 format a) st)"
  by (simp add: Debugf_def Infof_def Errorf_def fst_Fatalf
      log_def ErrorLevel_def DebugLevel_def InfoLevel_def FatalLevel_def)

theorem debug_and_info_levels_witness:
  "sinks (Debugf env0 (world0\<lparr>logger := Default\<lparr>Level := DebugLevel\<rparr>\<rparr>) ''x=%d'' [IntArg 5])
     Stderr = [WriteCall ''2018/03/07 09:05:00 . main.go:42         x=5\<newline>'' nil]
   \<and> Debugf env0 (world0\<lparr>logger := Default\<lparr>Level := InfoLevel\<rparr>\<rparr>) ''x=%d'' [IntArg 5] =
       world0\<lparr>logger := Default\<lparr>Level := InfoLevel\<rparr>\<rparr>"
proof -
  let ?d = "world0\<lparr>logger := Default\<lparr>Level := DebugLevel\<rparr>\<rparr>"
  let ?i = "world0\<lparr>logger := Default\<lparr>Level := InfoLevel\<rparr>\<rparr>"
  note td = debug_and_info_levels[of ?d env0 "''x=%d''" "[IntArg 5]"]
  note ti = debug_and_info_levels[of ?i env0 "''x=%d''" "[IntArg 5]"]
  have m: "message env0 (logger ?d) DebugLevel 1 ''x=%d'' [IntArg 5] =
      ''2018/03/07 09:05:00 . main.go:42         x=5\<newline>''"
    by (simp add: message_eq letter_known location_sample body_sample Now_env0
        Format_clock0 HasSuffix_def Default_def)
  have "Level (logger ?d) = DebugLevel" by simp
  with td have "Debugf env0 ?d ''x=%d'' [IntArg 5] =
        Write env0 (w (logger ?d)) (message env0 (logger ?d) DebugLevel 1 ''x=%d'' [IntArg 5]) ?d"
    by blast
  then have a: "sinks (Debugf env0 ?d ''x=%d'' [IntArg 5]) Stderr =
      [WriteCall ''2018/03/07 09:05:00 . main.go:42         x=5\<newline>'' nil]"
    unfolding m by (simp add: Write_sinks WriteErr_env0 Default_def world0_def)
  have "Level (logger ?i) = InfoLevel" by simp
  with ti have b: "Debugf env0 ?i ''x=%d'' [IntArg 5] = ?i"
    by blast
  show ?thesis by (intro conjI a b)
qed

text \<open>
  X3. When every byte of the rendering of file and line is ASCII, the location field
  is exactly 18 bytes: the rendering padded on the right with spaces when it is shorter
  than 18, its last 18 bytes when it is longer.
\<close>

theorem location_width_ascii:
  assumes "\<forall>c\<in>set (caller_fl e skip). (of_char c :: nat) < 0x80"
  shows "length (location e skip) = 18
   \<and> location e skip =
       (if length (caller_fl e skip) < 18
        then caller_fl e skip @ replicate (18 - length (caller_fl e skip)) (CHR '' '')
        else drop (length (caller_fl e skip) - 18) (caller_fl e skip))"
proof -
  let ?fl = "caller_fl e skip"
  let ?cut = "last18 ?fl"
  have "set ?cut \<subseteq> set ?fl" by (auto simp: last18_def dest: in_set_dropD)
  then have "\<forall>c\<in>set ?cut. (of_char c :: nat) < 0x80" using assms by blast
  then have "RuneCountInString ?cut = length ?cut" by (rule RuneCount_ascii)
  then show ?thesis by (auto simp: location_eq last18_def)
qed

theorem location_width_ascii_witness:
  "location env0 1 = ''main.go:42        '' \<and> length (location env0 1) = 18
   \<and> location env_long 1 = ''ngfilename.go:7   '' \<and> length (location env_long 1) = 18"
proof -
  have a0: "\<forall>c\<in>set (caller_fl env0 1). (of_char c :: nat) < 0x80"
    by (simp add: caller_fl_sample)
  have a: "location env0 1 = ''main.go:42        '' \<and> length (location env0 1) = 18"
    using location_width_ascii[OF a0] unfolding caller_fl_sample
    by (simp add: replicate_numeral)
  have b0: "\<forall>c\<in>set (caller_fl env_long 1). (of_char c :: nat) < 0x80"
    by (simp add: caller_fl_long)
  have b: "location env_long 1 = ''ngfilename.go:7   '' \<and> length (location env_long 1) = 18"
    using location_width_ascii[OF b0] unfolding caller_fl_long by simp
  show ?thesis using a b by (intro conjI) simp_all
qed

end
